theory Spec2Isabelle
  imports Complex_Main
begin

section \<open>Values, errors and the Python operations the search module relies on\<close>

text \<open>
  The search module of OpenAtlas (\<^verbatim>\<open>openatlas/api/v03/resources/search.py\<close>) filters
  entities against raw criteria. Its functions are dynamically typed, so the values that
  travel through a criterion are one datatype: numbers (Python's \<^verbatim>\<open>int\<close> and finite
  \<^verbatim>\<open>float\<close>, which compare with each other by numeric value, as the rational they
  denote), strings, dates and sequences. Every \<^verbatim>\<open>raise\<close> of the source, and every
  exception of a Python operation it applies, is a value of \<open>error\<close>.
\<close>

datatype error =
  WrongOperatorError | KeyError | TypeError | ValueError | IndexError | RecursionError

datatype pyval =
  VNum rat
| VStr string
| VDate nat nat nat
| VList "pyval list"

fun and_then :: "error + 'a \<Rightarrow> ('a \<Rightarrow> error + 'b) \<Rightarrow> error + 'b" where
  "and_then (Inl e) f = Inl e"
| "and_then (Inr x) f = f x"

fun lookup :: "'a option \<Rightarrow> error + 'a" where
  "lookup None = Inl KeyError"
| "lookup (Some x) = Inr x"

text \<open>A list comprehension whose element expression may raise: the first exception ends it.\<close>

fun map_err :: "('a \<Rightarrow> error + 'b) \<Rightarrow> 'a list \<Rightarrow> error + 'b list" where
  "map_err f [] = Inr []"
| "map_err f (x # xs) =
     and_then (f x) (\<lambda>y. and_then (map_err f xs) (\<lambda>ys. Inr (y # ys)))"

text \<open>A list comprehension with a condition that may raise.\<close>

fun filter_err :: "('a \<Rightarrow> error + bool) \<Rightarrow> 'a list \<Rightarrow> error + 'a list" where
  "filter_err f [] = Inr []"
| "filter_err f (x # xs) =
     and_then (f x) (\<lambda>b. and_then (filter_err f xs) (\<lambda>ys. Inr (if b then x # ys else ys)))"

text \<open>\<^verbatim>\<open>any\<close> and \<^verbatim>\<open>all\<close> over a generator: they stop at the first deciding element,
  so a later element that would raise is never evaluated.\<close>

fun py_any :: "('a \<Rightarrow> error + bool) \<Rightarrow> 'a list \<Rightarrow> error + bool" where
  "py_any f [] = Inr False"
| "py_any f (x # xs) = and_then (f x) (\<lambda>b. if b then Inr True else py_any f xs)"

fun py_all :: "('a \<Rightarrow> error + bool) \<Rightarrow> 'a list \<Rightarrow> error + bool" where
  "py_all f [] = Inr True"
| "py_all f (x # xs) = and_then (f x) (\<lambda>b. if b then py_all f xs else Inr False)"

fun py_not :: "error + bool \<Rightarrow> error + bool" where
  "py_not (Inl e) = Inl e"
| "py_not (Inr b) = Inr (\<not> b)"

text \<open>Truth value of an object (\<^verbatim>\<open>not entity_values\<close>): zero, the empty string and the
  empty sequence are false.\<close>

fun truthy :: "pyval \<Rightarrow> bool" where
  "truthy (VNum r) = (r \<noteq> 0)"
| "truthy (VStr s) = (s \<noteq> [])"
| "truthy (VDate y m d) = True"
| "truthy (VList xs) = (xs \<noteq> [])"

text \<open>\<^verbatim>\<open>a in b\<close> on two strings: \<open>a\<close> occurs in \<open>b\<close> as a contiguous run.\<close>

fun starts_with :: "'a list \<Rightarrow> 'a list \<Rightarrow> bool" where
  "starts_with [] ys = True"
| "starts_with (x # xs) [] = False"
| "starts_with (x # xs) (y # ys) = (x = y \<and> starts_with xs ys)"

fun substring :: "'a list \<Rightarrow> 'a list \<Rightarrow> bool" where
  "substring xs [] = (xs = [])"
| "substring xs (y # ys) = (starts_with xs (y # ys) \<or> substring xs ys)"

text \<open>Iterating a value: a sequence yields its elements, a string its characters,
  a number or a date is not iterable.\<close>

fun py_iter :: "pyval \<Rightarrow> error + pyval list" where
  "py_iter (VList xs) = Inr xs"
| "py_iter (VStr s) = Inr (map (\<lambda>c. VStr [c]) s)"
| "py_iter (VNum r) = Inl TypeError"
| "py_iter (VDate y m d) = Inl TypeError"

text \<open>\<^verbatim>\<open>item in container\<close>.\<close>

fun py_in :: "pyval \<Rightarrow> pyval \<Rightarrow> error + bool" where
  "py_in item (VList xs) = Inr (item \<in> set xs)"
| "py_in (VStr a) (VStr s) = Inr (substring a s)"
| "py_in item (VStr s) = Inl TypeError"
| "py_in item (VNum r) = Inl TypeError"
| "py_in item (VDate y m d) = Inl TypeError"

text \<open>\<^verbatim>\<open>container[i]\<close> for a non-negative index.\<close>

fun py_index :: "pyval \<Rightarrow> nat \<Rightarrow> error + pyval" where
  "py_index (VList xs) i = (if i < length xs then Inr (xs ! i) else Inl IndexError)"
| "py_index (VStr s) i = (if i < length s then Inr (VStr [s ! i]) else Inl IndexError)"
| "py_index (VNum r) i = Inl TypeError"
| "py_index (VDate y m d) i = Inl TypeError"

text \<open>\<^verbatim>\<open>' '.join(xs)\<close>: every element must be a string.\<close>

fun join_strs :: "pyval list \<Rightarrow> error + string" where
  "join_strs [] = Inr []"
| "join_strs [VStr s] = Inr s"
| "join_strs (VStr s # v # vs) =
     and_then (join_strs (v # vs)) (\<lambda>t. Inr (s @ '' '' @ t))"
| "join_strs (x # vs) = Inl TypeError"

definition py_join :: "pyval \<Rightarrow> error + string" where
  "py_join v = and_then (py_iter v) join_strs"

subsection \<open>Ordering\<close>

datatype cmp = LT | EQ | GT

fun cmp_nat :: "nat \<Rightarrow> nat \<Rightarrow> cmp" where
  "cmp_nat a b = (if a < b then LT else if a = b then EQ else GT)"

fun cmp_str :: "string \<Rightarrow> string \<Rightarrow> cmp" where
  "cmp_str [] [] = EQ"
| "cmp_str [] (y # ys) = LT"
| "cmp_str (x # xs) [] = GT"
| "cmp_str (x # xs) (y # ys) =
     (if x = y then cmp_str xs ys else cmp_nat (of_char x) (of_char y))"

text \<open>
  Modelled from the spec: the date collaborator (\<^verbatim>\<open>check_if_date\<close>, not among the
  sources) yields an ordered comparable. A date is year, month and day, ordered
  chronologically; the spec defines no comparison of a date with another kind of value,
  which is taken to raise like any other mixed comparison.
\<close>

fun cmp_date :: "nat \<times> nat \<times> nat \<Rightarrow> nat \<times> nat \<times> nat \<Rightarrow> cmp" where
  "cmp_date (y, m, d) (y', m', d') =
     (if y \<noteq> y' then cmp_nat y y' else if m \<noteq> m' then cmp_nat m m' else cmp_nat d d')"

text \<open>Three-way comparison of two values; sequences compare at their first differing
  element, values of different kinds do not compare.\<close>

fun py_cmp :: "pyval \<Rightarrow> pyval \<Rightarrow> error + cmp"
  and cmp_list :: "pyval list \<Rightarrow> pyval list \<Rightarrow> error + cmp" where
  "py_cmp (VNum a) (VNum b) = Inr (if a < b then LT else if a = b then EQ else GT)"
| "py_cmp (VStr a) (VStr b) = Inr (cmp_str a b)"
| "py_cmp (VDate y m d) (VDate y' m' d') = Inr (cmp_date (y, m, d) (y', m', d'))"
| "py_cmp (VList xs) (VList ys) = cmp_list xs ys"
| "py_cmp a b = Inl TypeError"
| "cmp_list [] [] = Inr EQ"
| "cmp_list [] (y # ys) = Inr LT"
| "cmp_list (x # xs) [] = Inr GT"
| "cmp_list (x # xs) (y # ys) = (if x = y then cmp_list xs ys else py_cmp x y)"

definition py_lt :: "pyval \<Rightarrow> pyval \<Rightarrow> error + bool" where
  "py_lt a b = and_then (py_cmp a b) (\<lambda>c. Inr (c = LT))"

definition py_le :: "pyval \<Rightarrow> pyval \<Rightarrow> error + bool" where
  "py_le a b = and_then (py_cmp a b) (\<lambda>c. Inr (c \<noteq> GT))"

definition py_gt :: "pyval \<Rightarrow> pyval \<Rightarrow> error + bool" where
  "py_gt a b = and_then (py_cmp a b) (\<lambda>c. Inr (c = GT))"

definition py_ge :: "pyval \<Rightarrow> pyval \<Rightarrow> error + bool" where
  "py_ge a b = and_then (py_cmp a b) (\<lambda>c. Inr (c \<noteq> LT))"

section \<open>Data model\<close>

text \<open>An entity exposes what \<^verbatim>\<open>value_to_be_searched\<close> reads: \<^verbatim>\<open>id\<close>, \<^verbatim>\<open>name\<close>,
  \<^verbatim>\<open>description\<close> (may be \<^verbatim>\<open>None\<close>), the values of \<^verbatim>\<open>aliases\<close>,
  \<^verbatim>\<open>cidoc_class.code\<close>, \<^verbatim>\<open>class_.name\<close>, the type nodes and the four temporal
  bounds (each may be \<^verbatim>\<open>None\<close>).\<close>

record type_node =
  node_id :: int
  node_name :: string

record entity =
  ent_id :: int
  name :: string
  description :: "string option"
  aliases :: "string list"
  cidoc_class_code :: string
  class_name :: string
  types :: "type_node list"
  begin_from :: "(nat \<times> nat \<times> nat) option"
  begin_to :: "(nat \<times> nat \<times> nat) option"
  end_from :: "(nat \<times> nat \<times> nat) option"
  end_to :: "(nat \<times> nat \<times> nat) option"

text \<open>A link as \<^verbatim>\<open>search_for_value\<close> reads it: \<^verbatim>\<open>link_.description\<close> and
  \<^verbatim>\<open>link_.domain.id\<close>.\<close>

record link =
  link_description :: "string option"
  domain_id :: int

text \<open>A raw criterion is a dict in which each of the keys \<^verbatim>\<open>operator\<close>, \<^verbatim>\<open>values\<close>
  and \<^verbatim>\<open>logicalOperator\<close> may be missing.\<close>

record raw_criterion =
  raw_operator :: "string option"
  raw_values :: "pyval list option"
  raw_logicalOperator :: "string option"

text \<open>The resolved criterion, the dict built by \<^verbatim>\<open>get_search_parameter\<close>.\<close>

record parameter =
  p_search_values :: "pyval list"
  p_logical_operator :: string
  p_operator :: string
  p_category :: string
  p_is_date :: bool

text \<open>
  The collaborators the module calls and that are not among the sources are taken as
  parameters:
  \<^item> \<open>get_all_sub_ids v\<close> is \<^verbatim>\<open>Type.get_all_sub_ids(g.types[v])\<close>, \<open>None\<close> when
    \<open>v\<close> is no key of \<^verbatim>\<open>g.types\<close>;
  \<^item> \<open>get_linked_entities_id_api\<close> and \<open>get_links\<close> are the two link lookups;
  \<^item> \<open>py_float\<close> is Python's \<^verbatim>\<open>float\<close> on a string, \<open>None\<close> when it raises
    \<^verbatim>\<open>ValueError\<close>;
  \<^item> \<open>str_lower\<close> is Python's \<^verbatim>\<open>str.lower\<close>, which lowers every cased letter
    of Unicode.
\<close>

record env =
  get_all_sub_ids :: "pyval \<Rightarrow> pyval list option"
  get_linked_entities_id_api :: "pyval \<Rightarrow> pyval list"
  get_links :: "pyval \<Rightarrow> link list"
  py_float :: "string \<Rightarrow> rat option"
  str_lower :: "string \<Rightarrow> string"

text \<open>
  Modelled from the spec: \<^verbatim>\<open>flatten_list_and_remove_duplicates\<close> (imported from the
  \<^verbatim>\<open>util\<close> module, not among the sources) flattens a list of lists and removes
  duplicates; the spec fixes no order of the result.
\<close>

definition flatten_list_and_remove_duplicates :: "'a list list \<Rightarrow> 'a list" where
  "flatten_list_and_remove_duplicates xss = remdups (concat xss)"

text \<open>
  Modelled from the spec: \<^verbatim>\<open>check_if_date_search\<close> (imported from
  \<^verbatim>\<open>search_validation\<close>, not among the sources) is true iff the category is one of the
  four date fields.
\<close>

definition check_if_date_search :: "string \<Rightarrow> bool" where
  "check_if_date_search c = (c \<in> set [''beginFrom'', ''beginTo'', ''endFrom'', ''endTo''])"

text \<open>
  Modelled from the spec: \<^verbatim>\<open>check_if_date(str(d))\<close> (imported from
  \<^verbatim>\<open>search_validation\<close>, not among the sources) converts the date field to a
  comparable; an absent or unparseable date yields an empty list.
\<close>

definition check_if_date :: "(nat \<times> nat \<times> nat) option \<Rightarrow> pyval" where
  "check_if_date x = (case x of None \<Rightarrow> VList [] | Some (y, m, d) \<Rightarrow> VDate y m d)"

definition VId :: "int \<Rightarrow> pyval" where
  "VId i = VNum (of_int i)"

section \<open>The search module\<close>

subsection \<open>\<^verbatim>\<open>value_to_be_searched\<close>\<close>

definition value_to_be_searched :: "env \<Rightarrow> entity \<Rightarrow> string \<Rightarrow> pyval" where
  "value_to_be_searched env e key =
     (if key \<in> set [''entityID'', ''relationToID'', ''valueTypeID''] then VList [VId (ent_id e)]
      else if key = ''entityName'' then VList [VStr (str_lower env (name e))]
      else if key = ''entityDescription'' \<and> description e \<noteq> None \<and> description e \<noteq> Some []
        then VList [VStr (str_lower env (the (description e)))]
      else if key = ''entityAliases'' then VList (map (\<lambda>v. VStr (str_lower env v)) (aliases e))
      else if key = ''entityCidocClass'' then VList [VStr (str_lower env (cidoc_class_code e))]
      else if key = ''entitySystemClass'' then VList [VStr (str_lower env (class_name e))]
      else if key = ''typeName''
        then VList (map (\<lambda>n. VStr (str_lower env (node_name n))) (types e))
      else if key \<in> set [''typeID'', ''typeIDWithSubs'']
        then VList (map (\<lambda>n. VId (node_id n)) (types e))
      else if key = ''beginFrom'' then check_if_date (begin_from e)
      else if key = ''beginTo'' then check_if_date (begin_to e)
      else if key = ''endFrom'' then check_if_date (end_from e)
      else if key = ''endTo'' then check_if_date (end_to e)
      else VList [])"

subsection \<open>\<^verbatim>\<open>search_entity\<close>\<close>

text \<open>The branches in the order of the source. A branch on the operator whose inner tests
  on \<^verbatim>\<open>logical_operator\<close> both fail falls through to the next \<^verbatim>\<open>if\<close>; none of
  those can hold, as the operator is already fixed, so the final \<^verbatim>\<open>raise\<close> is reached.\<close>

definition search_entity ::
  "pyval \<Rightarrow> string \<Rightarrow> pyval list \<Rightarrow> string \<Rightarrow> bool \<Rightarrow> error + bool" where
  "search_entity entity_values operator' search_values logical_operator is_comparable =
     (if \<not> truthy entity_values \<and> (operator' = ''like'' \<or> is_comparable) then Inr False
      else if operator' = ''equal'' \<and> logical_operator = ''or''
        then py_any (\<lambda>item. py_in item entity_values) search_values
      else if operator' = ''equal'' \<and> logical_operator = ''and''
        then py_all (\<lambda>item. py_in item entity_values) search_values
      else if operator' = ''notEqual'' \<and> logical_operator = ''or''
        then py_not (py_any (\<lambda>item. py_in item entity_values) search_values)
      else if operator' = ''notEqual'' \<and> logical_operator = ''and''
        then py_not (py_all (\<lambda>item. py_in item entity_values) search_values)
      else if operator' = ''like'' \<and> logical_operator = ''or''
        then py_any (\<lambda>item. and_then (py_iter entity_values) (py_any (\<lambda>v. py_in item v)))
               search_values
      else if operator' = ''like'' \<and> logical_operator = ''and''
        then py_all (\<lambda>item. and_then (py_join entity_values) (\<lambda>s. py_in item (VStr s)))
               search_values
      else if operator' = ''greaterThan'' \<and> is_comparable \<and> logical_operator = ''or''
        then py_any (\<lambda>item. py_lt item entity_values) search_values
      else if operator' = ''greaterThan'' \<and> is_comparable \<and> logical_operator = ''and''
        then py_all (\<lambda>item. py_lt item entity_values) search_values
      else if operator' = ''greaterThanEqual'' \<and> is_comparable \<and> logical_operator = ''or''
        then py_any (\<lambda>item. py_le item entity_values) search_values
      else if operator' = ''greaterThanEqual'' \<and> is_comparable \<and> logical_operator = ''and''
        then py_all (\<lambda>item. py_le item entity_values) search_values
      else if operator' = ''lesserThan'' \<and> is_comparable \<and> logical_operator = ''or''
        then py_any (\<lambda>item. py_gt item entity_values) search_values
      else if operator' = ''lesserThan'' \<and> is_comparable \<and> logical_operator = ''and''
        then py_all (\<lambda>item. py_gt item entity_values) search_values
      else if operator' = ''lesserThanEqual'' \<and> is_comparable \<and> logical_operator = ''or''
        then py_any (\<lambda>item. py_ge item entity_values) search_values
      else if operator' = ''lesserThanEqual'' \<and> is_comparable \<and> logical_operator = ''and''
        then py_all (\<lambda>item. py_ge item entity_values) search_values
      else Inl WrongOperatorError)"

subsection \<open>\<^verbatim>\<open>get_sub_ids\<close>\<close>

text \<open>
  The function recurses once per level of the type hierarchy and appends to the list it
  was given. Python bounds the depth of recursion and raises \<^verbatim>\<open>RecursionError\<close> beyond
  it, so the number of frames still available is a parameter: on a hierarchy with a cycle
  the function does not return a list for any bound.
\<close>

fun get_sub_ids :: "nat \<Rightarrow> env \<Rightarrow> pyval \<Rightarrow> pyval list \<Rightarrow> error + pyval list"
  and get_sub_ids_loop :: "nat \<Rightarrow> env \<Rightarrow> pyval list \<Rightarrow> pyval list \<Rightarrow> error + pyval list"
where
  "get_sub_ids 0 env id' subs = Inl RecursionError"
| "get_sub_ids (Suc depth) env id' subs =
     (case get_all_sub_ids env id' of
        None \<Rightarrow> Inl KeyError
      | Some new_subs \<Rightarrow> get_sub_ids_loop depth env new_subs (subs @ new_subs))"
| "get_sub_ids_loop depth env [] subs = Inr subs"
| "get_sub_ids_loop depth env (sub # rest) subs =
     (case get_sub_ids depth env sub subs of
        Inl e \<Rightarrow> Inl e
      | Inr subs' \<Rightarrow> get_sub_ids_loop depth env rest subs')"

subsection \<open>\<^verbatim>\<open>search_for_value\<close>\<close>

text \<open>The truth value of \<^verbatim>\<open>link_.description\<close>: the description is neither
  \<^verbatim>\<open>None\<close> nor the empty string.\<close>

definition has_description :: "link \<Rightarrow> bool" where
  "has_description link' =
     (link_description link' \<noteq> None \<and> link_description link' \<noteq> Some [])"

text \<open>The condition of the \<^verbatim>\<open>if\<close> in the loop,
  \<^verbatim>\<open>link_.description and search_entity(...)\<close>. The arguments of the call are evaluated
  from left to right: the lookup of \<^verbatim>\<open>operator\<close>, the conversion
  \<^verbatim>\<open>float(link_.description)\<close>, \<^verbatim>\<open>values[1]\<close>, and the lookup of
  \<^verbatim>\<open>logicalOperator\<close>.\<close>

definition link_condition :: "env \<Rightarrow> pyval \<Rightarrow> raw_criterion \<Rightarrow> link \<Rightarrow> error + bool" where
  "link_condition env vals parameter link' =
     (if has_description link'
      then
        and_then (lookup (raw_operator parameter)) (\<lambda>operator'.
        and_then (case py_float env (the (link_description link')) of
                    None \<Rightarrow> Inl ValueError | Some f \<Rightarrow> Inr f) (\<lambda>f.
        and_then (py_index vals 1) (\<lambda>v1.
        and_then (lookup (raw_logicalOperator parameter)) (\<lambda>logical_operator.
          search_entity
            (if operator' \<in> set [''equal'', ''notEqual''] then VList [VNum f] else VNum f)
            operator' [v1] logical_operator True))))
      else Inr False)"

text \<open>The loop over the links, with the list \<^verbatim>\<open>ids\<close> it appends to.\<close>

fun search_for_value_loop ::
  "env \<Rightarrow> pyval \<Rightarrow> raw_criterion \<Rightarrow> link list \<Rightarrow> pyval list \<Rightarrow> error + pyval list" where
  "search_for_value_loop env vals parameter [] ids = Inr ids"
| "search_for_value_loop env vals parameter (link' # links) ids =
     (case link_condition env vals parameter link' of
        Inl e \<Rightarrow> Inl e
      | Inr b \<Rightarrow>
          search_for_value_loop env vals parameter links
            (if b then ids @ [VId (domain_id link')] else ids))"

definition search_for_value :: "env \<Rightarrow> pyval \<Rightarrow> raw_criterion \<Rightarrow> error + pyval list" where
  "search_for_value env vals parameter =
     and_then (py_index vals 0) (\<lambda>v0.
       search_for_value_loop env vals parameter (get_links env v0) [])"

subsection \<open>\<^verbatim>\<open>get_search_values\<close>\<close>

definition lower_value :: "env \<Rightarrow> pyval \<Rightarrow> pyval" where
  "lower_value env v = (case v of VStr s \<Rightarrow> VStr (str_lower env s) | _ \<Rightarrow> v)"

definition get_search_values ::
  "nat \<Rightarrow> env \<Rightarrow> string \<Rightarrow> raw_criterion \<Rightarrow> error + pyval list" where
  "get_search_values depth env category parameter =
     and_then (lookup (raw_values parameter)) (\<lambda>raw.
     and_then
       (if category \<in> set [''typeIDWithSubs'']
        then and_then (map_err (\<lambda>v. get_sub_ids depth env v []) (map (lower_value env) raw))
               (\<lambda>subs. Inr (map (lower_value env) raw @ flatten_list_and_remove_duplicates subs))
        else Inr (map (lower_value env) raw)) (\<lambda>vals.
     if category \<in> set [''relationToID'']
     then Inr (flatten_list_and_remove_duplicates (map (get_linked_entities_id_api env) vals))
     else if category \<in> set [''valueTypeID'']
     then and_then (map_err (\<lambda>v. search_for_value env v parameter) vals)
            (\<lambda>ids. Inr (flatten_list_and_remove_duplicates ids))
     else Inr vals))"

subsection \<open>\<^verbatim>\<open>get_search_parameter\<close>\<close>

text \<open>The dict passed to \<^verbatim>\<open>parameter.update\<close>, its entries evaluated in the order in
  which they are written.\<close>

definition resolve_criterion ::
  "nat \<Rightarrow> env \<Rightarrow> string \<Rightarrow> raw_criterion \<Rightarrow> error + parameter" where
  "resolve_criterion depth env category i =
     and_then (get_search_values depth env category i) (\<lambda>sv.
     and_then (if category = ''valueTypeID'' then Inr ''equal'' else lookup (raw_operator i))
       (\<lambda>operator'.
     Inr \<lparr>p_search_values = sv,
          p_logical_operator =
            (case raw_logicalOperator i of Some l \<Rightarrow> l | None \<Rightarrow> ''or''),
          p_operator = operator',
          p_category = category,
          p_is_date = check_if_date_search category\<rparr>))"

text \<open>The parser dict is the list of its items in iteration order. The dict
  \<^verbatim>\<open>parameter\<close> starts empty (\<open>None\<close>); each update sets all five keys.\<close>

fun update_each ::
  "nat \<Rightarrow> env \<Rightarrow> string \<Rightarrow> raw_criterion list \<Rightarrow> parameter option \<Rightarrow> error + parameter option"
where
  "update_each depth env category [] parameter = Inr parameter"
| "update_each depth env category (i # rest) parameter =
     (case resolve_criterion depth env category i of
        Inl e \<Rightarrow> Inl e
      | Inr p \<Rightarrow> update_each depth env category rest (Some p))"

fun update_items ::
  "nat \<Rightarrow> env \<Rightarrow> (string \<times> raw_criterion list) list \<Rightarrow> parameter option
     \<Rightarrow> error + parameter option"
where
  "update_items depth env [] parameter = Inr parameter"
| "update_items depth env ((category, vals) # rest) parameter =
     (case update_each depth env category vals parameter of
        Inl e \<Rightarrow> Inl e
      | Inr parameter' \<Rightarrow> update_items depth env rest parameter')"

definition get_search_parameter ::
  "nat \<Rightarrow> env \<Rightarrow> (string \<times> raw_criterion list) list \<Rightarrow> error + parameter option" where
  "get_search_parameter depth env parser = update_items depth env parser None"

subsection \<open>\<^verbatim>\<open>search_result\<close>, \<^verbatim>\<open>iterate_through_entities\<close> and \<^verbatim>\<open>search\<close>\<close>

definition search_result :: "env \<Rightarrow> entity \<Rightarrow> parameter option \<Rightarrow> error + bool" where
  "search_result env e parameter =
     and_then (lookup parameter) (\<lambda>p.
       search_entity (value_to_be_searched env e (p_category p)) (p_operator p)
         (p_search_values p) (p_logical_operator p) (p_is_date p))"

definition iterate_through_entities ::
  "env \<Rightarrow> entity \<Rightarrow> parameter option list \<Rightarrow> error + bool" where
  "iterate_through_entities env e parameter =
     and_then (filter_err (search_result env e) parameter) (\<lambda>ps. Inr (ps \<noteq> []))"

definition search ::
  "nat \<Rightarrow> env \<Rightarrow> entity list \<Rightarrow> (string \<times> raw_criterion list) list list
     \<Rightarrow> error + entity list" where
  "search depth env entities parser =
     and_then (map_err (get_search_parameter depth env) parser) (\<lambda>parameter.
       filter_err (\<lambda>e. iterate_through_entities env e parameter) entities)"

section \<open>Notions the properties are stated with\<close>

text \<open>The strings of a list joined by single spaces, as \<^verbatim>\<open>' '.join\<close> builds it.\<close>

fun space_join :: "string list \<Rightarrow> string" where
  "space_join [] = []"
| "space_join [s] = s"
| "space_join (s # t # ts) = s @ '' '' @ space_join (t # ts)"

section \<open>A small installation for the examples\<close>

text \<open>A type tree with root 1, children 2 and 3, and 4 below 2; relationship links from
  the entities 1 and 5; value links of the types 9, 10 and 11: under 9 one with the
  description \<^verbatim>\<open>42.5\<close> and one without description, under 10 one with the description
  \<^verbatim>\<open>abc\<close>, which \<^verbatim>\<open>float\<close> rejects, under 11 one without description and one
  with the empty description, under 12 one with \<^verbatim>\<open>42.5\<close> followed by one with
  \<^verbatim>\<open>abc\<close>.\<close>

text \<open>The installation lowers ASCII letters, which is what \<^verbatim>\<open>str.lower\<close> does on the
  ASCII strings of the examples.\<close>

definition ascii_lower_char :: "char \<Rightarrow> char" where
  "ascii_lower_char c =
     (if (65::nat) \<le> of_char c \<and> of_char c \<le> (90::nat)
      then char_of (of_char c + (32::nat)) else c)"

definition ascii_lower :: "string \<Rightarrow> string" where
  "ascii_lower s = map ascii_lower_char s"

definition example_env :: env where
  "example_env =
     \<lparr>get_all_sub_ids = (\<lambda>v. if v = VId 1 then Some [VId 2, VId 3]
                              else if v = VId 2 then Some [VId 4]
                              else if v = VId 3 \<or> v = VId 4 then Some [] else None),
      get_linked_entities_id_api = (\<lambda>v. if v = VId 1 then [VId 2, VId 3]
                              else if v = VId 5 then [VId 3] else []),
      get_links = (\<lambda>v. if v = VId 9
                         then [\<lparr>link_description = Some ''42.5'', domain_id = 7\<rparr>,
                               \<lparr>link_description = None, domain_id = 8\<rparr>]
                         else if v = VId 10
                         then [\<lparr>link_description = Some ''abc'', domain_id = 7\<rparr>]
                         else if v = VId 11
                         then [\<lparr>link_description = None, domain_id = 8\<rparr>,
                               \<lparr>link_description = Some [], domain_id = 6\<rparr>]
                         else if v = VId 12
                         then [\<lparr>link_description = Some ''42.5'', domain_id = 7\<rparr>,
                               \<lparr>link_description = Some ''abc'', domain_id = 8\<rparr>]
                         else []),
      py_float = (\<lambda>s. if s = ''42.5'' then Some (85 / 2) else None),
      str_lower = ascii_lower\<rparr>"

definition example_entity :: "int \<Rightarrow> string \<Rightarrow> entity" where
  "example_entity i n =
     \<lparr>ent_id = i, name = n, description = None, aliases = [], cidoc_class_code = ''e18'',
      class_name = ''place'', types = [], begin_from = None, begin_to = None,
      end_from = None, end_to = None\<rparr>"

definition criterion :: "string \<Rightarrow> pyval list \<Rightarrow> raw_criterion" where
  "criterion op vs = \<lparr>raw_operator = Some op, raw_values = Some vs, raw_logicalOperator = None\<rparr>"

text \<open>The type hierarchy as the collaborator presents it: \<open>b\<close> is below \<open>a\<close> when the
  lookup for \<open>a\<close> lists \<open>b\<close>. The descendants of a type are what is reachable in one or
  more such steps.\<close>

definition sub_rel :: "env \<Rightarrow> (pyval \<times> pyval) set" where
  "sub_rel env = {(a, b). \<exists>bs. get_all_sub_ids env a = Some bs \<and> b \<in> set bs}"

definition descendants :: "env \<Rightarrow> pyval \<Rightarrow> pyval set" where
  "descendants env v = {y. (v, y) \<in> (sub_rel env)\<^sup>+}"

text \<open>A set of types is a hierarchy without cycles when every type in it is known, its
  listed sub-types are in the set again, and a height function decreases along every
  step.\<close>

definition hierarchy :: "env \<Rightarrow> pyval set \<Rightarrow> (pyval \<Rightarrow> nat) \<Rightarrow> bool" where
  "hierarchy env T height =
     (\<forall>v\<in>T. \<exists>cs. get_all_sub_ids env v = Some cs \<and> set cs \<subseteq> T \<and>
               (\<forall>c\<in>set cs. height c < height v))"

definition example_height :: "pyval \<Rightarrow> nat" where
  "example_height v = (if v = VId 1 then 2 else if v = VId 2 then 1 else 0)"

section \<open>Facts about the Python operations\<close>

lemma starts_with_iff: "starts_with xs ys \<longleftrightarrow> (\<exists>q. ys = xs @ q)"
  by (induction xs ys rule: starts_with.induct) auto

lemma substring_iff: "substring xs ys \<longleftrightarrow> (\<exists>p q. ys = p @ xs @ q)"
proof (induction ys)
  case Nil
  then show ?case by simp
next
  case (Cons y ys)
  have "(\<exists>p q. y # ys = p @ xs @ q) \<longleftrightarrow> (\<exists>q. y # ys = xs @ q) \<or> (\<exists>p q. ys = p @ xs @ q)"
  proof
    assume "\<exists>p q. y # ys = p @ xs @ q"
    then obtain p q where pq: "y # ys = p @ xs @ q" by blast
    show "(\<exists>q. y # ys = xs @ q) \<or> (\<exists>p q. ys = p @ xs @ q)"
    proof (cases p)
      case Nil
      with pq show ?thesis by auto
    next
      case (Cons a p')
      with pq have "ys = p' @ xs @ q" by simp
      then show ?thesis by blast
    qed
  next
    assume "(\<exists>q. y # ys = xs @ q) \<or> (\<exists>p q. ys = p @ xs @ q)"
    then show "\<exists>p q. y # ys = p @ xs @ q"
    proof
      assume "\<exists>q. y # ys = xs @ q"
      then obtain q where "y # ys = [] @ xs @ q" by auto
      then show ?thesis by blast
    next
      assume "\<exists>p q. ys = p @ xs @ q"
      then obtain p q where "y # ys = (y # p) @ xs @ q" by auto
      then show ?thesis by blast
    qed
  qed
  with Cons show ?case by (simp add: starts_with_iff)
qed

lemma py_any_pure: "py_any (\<lambda>x. Inr (P x)) xs = Inr (\<exists>x\<in>set xs. P x)"
  by (induction xs) auto

lemma py_all_pure: "py_all (\<lambda>x. Inr (P x)) xs = Inr (\<forall>x\<in>set xs. P x)"
  by (induction xs) auto

lemma py_any_map: "py_any f (map g xs) = py_any (\<lambda>x. f (g x)) xs"
  by (induction xs) (simp_all cong: if_cong)

lemma py_all_map: "py_all f (map g xs) = py_all (\<lambda>x. f (g x)) xs"
  by (induction xs) (simp_all cong: if_cong)

lemma join_strs_strings: "join_strs (map VStr es) = Inr (space_join es)"
  by (induction es rule: space_join.induct) auto

section \<open>The operator evaluator\<close>

text \<open>
  C5. If \<^verbatim>\<open>entity_values\<close> is empty (more generally, false as a truth value) and the
  operator is \<^verbatim>\<open>like\<close> or the criterion is date-comparable, \<^verbatim>\<open>search_entity\<close>
  returns \<^verbatim>\<open>False\<close> and raises nothing, for every list of search values (the empty
  one included) and every combinator.
\<close>

theorem search_entity_empty_values:
  assumes "\<not> truthy entity_values"
    and "operator' = ''like'' \<or> is_comparable"
  shows "search_entity entity_values operator' search_values logical_operator is_comparable
           = Inr False"
  using assms by (simp add: search_entity_def)

theorem search_entity_empty_values_witness:
  "\<not> truthy (VList []) \<and>
   search_entity (VList []) ''like'' [] ''and'' False = Inr False \<and>
   search_entity (VList []) ''greaterThan'' [VDate 2000 1 1] ''or'' True = Inr False"
  using search_entity_empty_values [of "VList []" "''like''" False "[]" "''and''"]
    search_entity_empty_values [of "VList []" "''greaterThan''" True "[VDate 2000 1 1]" "''or''"]
  by simp

text \<open>
  C2, as the code has it. With the entity's \<^verbatim>\<open>beginFrom\<close> at 1990-01-01 and the single
  search value 2000-01-01, \<^verbatim>\<open>greaterThan\<close> on a date-comparable criterion tests
  \<^verbatim>\<open>2000-01-01 < 1990-01-01\<close> and returns \<^verbatim>\<open>False\<close>, under either combinator.
\<close>

theorem greater_than_counterexample:
  "search_entity (VDate 1990 1 1) ''greaterThan'' [VDate 2000 1 1] ''or'' True = Inr False \<and>
   search_entity (VDate 1990 1 1) ''greaterThan'' [VDate 2000 1 1] ''and'' True = Inr False"
  by (simp add: search_entity_def py_lt_def)

text \<open>
  C2, amended. For an entity date and a single search date, \<^verbatim>\<open>greaterThan\<close> on a
  date-comparable criterion returns true exactly when the search date is strictly earlier
  than the entity's date: false for entity 1990-01-01 against 2000-01-01, true for entity
  2000-01-01 against 1990-01-01.
\<close>

theorem greater_than_single_date:
  assumes "logical_operator = ''or'' \<or> logical_operator = ''and''"
  shows "search_entity (VDate y m d) ''greaterThan'' [VDate y' m' d'] logical_operator True
           = Inr (y' < y \<or> (y' = y \<and> (m' < m \<or> (m' = m \<and> d' < d))))"
  using assms by (auto simp add: search_entity_def py_lt_def)

theorem greater_than_single_date_witness:
  "(''or'' = ''or'' \<or> ''or'' = ''and'') \<and>
   search_entity (VDate 1990 1 1) ''greaterThan'' [VDate 2000 1 1] ''or'' True = Inr False \<and>
   search_entity (VDate 2000 1 1) ''greaterThan'' [VDate 1990 1 1] ''or'' True = Inr True"
  using greater_than_single_date [of "''or''" 1990 1 1 2000 1 1]
    greater_than_single_date [of "''or''" 2000 1 1 1990 1 1]
  by simp

text \<open>
  C4, as the code has it. The operator \<^verbatim>\<open>contains\<close> is outside the known set, yet with
  empty \<^verbatim>\<open>entity_values\<close> on a date-comparable criterion the guard at the head of
  \<^verbatim>\<open>search_entity\<close> returns \<^verbatim>\<open>False\<close> before any operator is looked at: nothing is
  raised, under either combinator.
\<close>

theorem unknown_operator_counterexample:
  "search_entity (VList []) ''contains'' [VStr ''x''] ''or'' True = Inr False \<and>
   search_entity (VList []) ''contains'' [VStr ''x''] ''and'' True = Inr False"
  by (simp add: search_entity_def)

text \<open>
  C4, amended. For every combinator, an operator outside the known set raises
  \<^verbatim>\<open>WrongOperatorError\<close>, except that it returns \<^verbatim>\<open>False\<close> when
  \<^verbatim>\<open>entity_values\<close> is empty and the criterion is date-comparable; an ordering operator
  on a criterion that is not date-comparable raises \<^verbatim>\<open>WrongOperatorError\<close>, whatever
  \<^verbatim>\<open>entity_values\<close> holds.
\<close>

theorem wrong_operator:
  "(operator' \<notin> set [''equal'', ''notEqual'', ''like'', ''greaterThan'', ''greaterThanEqual'',
        ''lesserThan'', ''lesserThanEqual'']
      \<longrightarrow> search_entity entity_values operator' search_values logical_operator is_comparable
          = (if \<not> truthy entity_values \<and> is_comparable then Inr False
             else Inl WrongOperatorError))
   \<and> (operator' \<in> set [''greaterThan'', ''greaterThanEqual'', ''lesserThan'', ''lesserThanEqual'']
      \<longrightarrow> search_entity entity_values operator' search_values logical_operator False
          = Inl WrongOperatorError)"
  by (auto simp add: search_entity_def)

theorem wrong_operator_witness:
  "search_entity (VList [VStr ''a'']) ''contains'' [VStr ''a''] ''or'' False
     = Inl WrongOperatorError \<and>
   search_entity (VList [VStr ''a'']) ''contains'' [VStr ''a''] ''and'' True
     = Inl WrongOperatorError \<and>
   search_entity (VList [VId 1]) ''lesserThan'' [VId 2] ''and'' False
     = Inl WrongOperatorError"
  using wrong_operator [of "''contains''" "VList [VStr ''a'']" "[VStr ''a'']" "''or''" False]
    wrong_operator [of "''contains''" "VList [VStr ''a'']" "[VStr ''a'']" "''and''" True]
    wrong_operator [of "''lesserThan''" "VList [VId 1]" "[VId 2]" "''and''" False]
  by simp

text \<open>
  C8. For a non-empty list of entity strings and a list of search strings, \<^verbatim>\<open>like\<close>
  with \<^verbatim>\<open>or\<close> is true iff some search value occurs as a substring of some entity
  value, and with \<^verbatim>\<open>and\<close> iff every search value occurs as a substring of the entity
  values joined by spaces.
\<close>

theorem like_semantics:
  assumes "es \<noteq> []"
  shows "search_entity (VList (map VStr es)) ''like'' (map VStr ss) ''or'' is_comparable
           = Inr (\<exists>s\<in>set ss. \<exists>e\<in>set es. \<exists>p q. e = p @ s @ q)
       \<and> search_entity (VList (map VStr es)) ''like'' (map VStr ss) ''and'' is_comparable
           = Inr (\<forall>s\<in>set ss. \<exists>p q. space_join es = p @ s @ q)"
  using assms
  by (simp add: search_entity_def py_join_def join_strs_strings py_any_map py_all_map
      py_any_pure py_all_pure substring_iff)

text \<open>The example of the claim: entity values \<^verbatim>\<open>["san francisco"]\<close> against
  \<^verbatim>\<open>["san", "cisco"]\<close> and against \<^verbatim>\<open>["rome"]\<close>.\<close>

theorem like_semantics_witness:
  "[''san francisco''] \<noteq> [] \<and>
   search_entity (VList [VStr ''san francisco'']) ''like'' [VStr ''san'', VStr ''cisco'']
     ''or'' False = Inr True \<and>
   search_entity (VList [VStr ''san francisco'']) ''like'' [VStr ''san'', VStr ''cisco'']
     ''and'' False = Inr True \<and>
   search_entity (VList [VStr ''san francisco'']) ''like'' [VStr ''rome''] ''or'' False
     = Inr False \<and>
   search_entity (VList [VStr ''san francisco'']) ''like'' [VStr ''rome''] ''and'' False
     = Inr False"
  using like_semantics [of "[''san francisco'']" "[''san'', ''cisco'']" False,
      unfolded substring_iff [symmetric]]
    like_semantics [of "[''san francisco'']" "[''rome'']" False,
      unfolded substring_iff [symmetric]]
  by simp

section \<open>The search orchestrator\<close>

lemma map_err_Inr_iff:
  "map_err f xs = Inr ys \<longleftrightarrow> list_all2 (\<lambda>x y. f x = Inr y) xs ys"
proof (induction xs arbitrary: ys)
  case Nil
  then show ?case by auto
next
  case (Cons x xs)
  show ?case
  proof (cases "f x")
    case (Inl e)
    then show ?thesis by (auto simp: list_all2_Cons1)
  next
    case fx: (Inr y)
    show ?thesis
    proof (cases "map_err f xs")
      case (Inl e)
      with fx Cons.IH show ?thesis by (auto simp: list_all2_Cons1)
    next
      case (Inr zs)
      with fx Cons.IH show ?thesis by (auto simp: list_all2_Cons1)
    qed
  qed
qed

lemma filter_err_Inr_iff:
  "filter_err f xs = Inr ys \<longleftrightarrow>
     (\<forall>x\<in>set xs. \<exists>b. f x = Inr b) \<and> ys = filter (\<lambda>x. f x = Inr True) xs"
proof (induction xs arbitrary: ys)
  case Nil
  then show ?case by auto
next
  case (Cons x xs)
  show ?case
  proof (cases "f x")
    case (Inl e)
    then show ?thesis by auto
  next
    case fx: (Inr b)
    show ?thesis
    proof (cases "filter_err f xs")
      case (Inl e)
      with fx Cons.IH show ?thesis by auto
    next
      case (Inr zs)
      with fx Cons.IH [of zs] show ?thesis by auto
    qed
  qed
qed

lemma iterate_through_entities_Inr_iff:
  "iterate_through_entities env e ps = Inr b \<longleftrightarrow>
     (\<forall>p\<in>set ps. \<exists>c. search_result env e p = Inr c) \<and>
     b = (\<exists>p\<in>set ps. search_result env e p = Inr True)"
proof (cases "filter_err (search_result env e) ps")
  case (Inl err)
  then show ?thesis
    using filter_err_Inr_iff [of "search_result env e" ps]
    by (auto simp: iterate_through_entities_def)
next
  case (Inr qs)
  then show ?thesis
    using filter_err_Inr_iff [of "search_result env e" ps qs]
    by (auto simp: iterate_through_entities_def filter_empty_conv)
qed

text \<open>
  C3. \<^verbatim>\<open>search\<close> returns a list exactly when every raw criterion resolves and every
  resolved criterion evaluates to a boolean on every entity; the list then holds exactly
  the entities on which at least one resolved criterion evaluates true, in the order of
  the input. Each criterion is evaluated on its own, with its own combinator; across
  criteria the only connective is this disjunction.
\<close>

theorem search_characterisation:
  "search depth env entities parser = Inr result \<longleftrightarrow>
     (\<exists>parameter.
        map_err (get_search_parameter depth env) parser = Inr parameter \<and>
        (\<forall>e\<in>set entities. \<forall>p\<in>set parameter. \<exists>b. search_result env e p = Inr b) \<and>
        result = filter (\<lambda>e. \<exists>p\<in>set parameter. search_result env e p = Inr True) entities)"
proof (cases "map_err (get_search_parameter depth env) parser")
  case (Inl err)
  then show ?thesis by (simp add: search_def)
next
  case (Inr ps)
  have "(\<lambda>e. iterate_through_entities env e ps = Inr True)
          = (\<lambda>e. (\<forall>p\<in>set ps. \<exists>c. search_result env e p = Inr c) \<and> (\<exists>p\<in>set ps. search_result env e p = Inr True))"
    by (auto simp: iterate_through_entities_Inr_iff)
  moreover have "(\<forall>e\<in>set entities. \<exists>b. iterate_through_entities env e ps = Inr b)
          \<longleftrightarrow> (\<forall>e\<in>set entities. \<forall>p\<in>set ps. \<exists>b. search_result env e p = Inr b)"
    by (auto simp: iterate_through_entities_Inr_iff)
  ultimately show ?thesis
    using Inr by (auto simp: search_def filter_err_Inr_iff intro!: filter_cong)
qed



lemma search_example_resolved:
  "map_err (get_search_parameter 0 example_env)
     [[(''entityID'', [criterion ''equal'' [VId 1]])],
      [(''entityName'', [criterion ''like'' [VStr ''Vienna'']])]]
   = Inr [Some \<lparr>p_search_values = [VId 1], p_logical_operator = ''or'', p_operator = ''equal'',
                 p_category = ''entityID'', p_is_date = False\<rparr>,
          Some \<lparr>p_search_values = [VStr ''vienna''], p_logical_operator = ''or'',
                 p_operator = ''like'', p_category = ''entityName'', p_is_date = False\<rparr>]"
  by code_simp

lemma search_example_results:
  "search_result example_env (example_entity 1 ''Rome'')
     (Some \<lparr>p_search_values = [VId 1], p_logical_operator = ''or'', p_operator = ''equal'',
                 p_category = ''entityID'', p_is_date = False\<rparr>) = Inr True"
  "search_result example_env (example_entity 2 ''Vienna'')
     (Some \<lparr>p_search_values = [VId 1], p_logical_operator = ''or'', p_operator = ''equal'',
                 p_category = ''entityID'', p_is_date = False\<rparr>) = Inr False"
  "search_result example_env (example_entity 3 ''Graz'')
     (Some \<lparr>p_search_values = [VId 1], p_logical_operator = ''or'', p_operator = ''equal'',
                 p_category = ''entityID'', p_is_date = False\<rparr>) = Inr False"
  "search_result example_env (example_entity 1 ''Rome'')
     (Some \<lparr>p_search_values = [VStr ''vienna''], p_logical_operator = ''or'',
                 p_operator = ''like'', p_category = ''entityName'', p_is_date = False\<rparr>) = Inr False"
  "search_result example_env (example_entity 2 ''Vienna'')
     (Some \<lparr>p_search_values = [VStr ''vienna''], p_logical_operator = ''or'',
                 p_operator = ''like'', p_category = ''entityName'', p_is_date = False\<rparr>) = Inr True"
  "search_result example_env (example_entity 3 ''Graz'')
     (Some \<lparr>p_search_values = [VStr ''vienna''], p_logical_operator = ''or'',
                 p_operator = ''like'', p_category = ''entityName'', p_is_date = False\<rparr>) = Inr False"
  by code_simp+

text \<open>Two criteria, the first matching only the entity 1, the second only the entity
  named Vienna: of three entities the first two are returned, in their order.\<close>

theorem search_characterisation_witness:
  "search 0 example_env
     [example_entity 1 ''Rome'', example_entity 2 ''Vienna'', example_entity 3 ''Graz'']
     [[(''entityID'', [criterion ''equal'' [VId 1]])],
      [(''entityName'', [criterion ''like'' [VStr ''Vienna'']])]]
   = Inr [example_entity 1 ''Rome'', example_entity 2 ''Vienna'']"
proof (rule search_characterisation [THEN iffD2], intro exI conjI)
  show "map_err (get_search_parameter 0 example_env)
     [[(''entityID'', [criterion ''equal'' [VId 1]])],
      [(''entityName'', [criterion ''like'' [VStr ''Vienna'']])]]
   = Inr [Some \<lparr>p_search_values = [VId 1], p_logical_operator = ''or'', p_operator = ''equal'',
                 p_category = ''entityID'', p_is_date = False\<rparr>,
          Some \<lparr>p_search_values = [VStr ''vienna''], p_logical_operator = ''or'',
                 p_operator = ''like'', p_category = ''entityName'', p_is_date = False\<rparr>]"
    by (rule search_example_resolved)
qed (auto simp: search_example_results)

section \<open>The criterion resolver\<close>

lemma update_each_last:
  assumes "\<forall>i\<in>set cs. \<exists>p. resolve_criterion depth env category i = Inr p"
  shows "update_each depth env category (cs @ [c]) p0 = update_each depth env category [c] p1"
  using assms by (induction cs arbitrary: p0) auto

lemma update_items_append:
  "update_items depth env (xs @ ys) p =
     (case update_items depth env xs p of
        Inl e \<Rightarrow> Inl e | Inr p' \<Rightarrow> update_items depth env ys p')"
  by (induction xs arbitrary: p) (auto split: sum.splits)

lemma map_err_cong_elem:
  assumes "f x = f y"
  shows "map_err f (ps @ x # qs) = map_err f (ps @ y # qs)"
  using assms by (induction ps) auto

lemma get_search_parameter_last:
  assumes "\<forall>i\<in>set cs. \<exists>p. resolve_criterion depth env category i = Inr p"
  shows "get_search_parameter depth env (pre @ (category, cs @ [c]) # post)
           = get_search_parameter depth env (pre @ (category, [c]) # post)"
proof -
  have "update_each depth env category (cs @ [c]) p0 = update_each depth env category [c] p0"
    for p0 using assms by (rule update_each_last)
  then show ?thesis
    by (simp add: get_search_parameter_def update_items_append split: sum.splits)
qed

text \<open>
  C9. When the list under one category holds several raw criteria, each update replaces
  the whole resolved parameter, so the result is the resolution of the last criterion
  alone: provided the earlier criteria resolve without raising, the resolved parameter,
  and with it the search, is the one obtained from the dict in which the category holds
  only its last criterion.
\<close>

theorem last_criterion_wins:
  assumes "\<forall>i\<in>set cs. \<exists>p. resolve_criterion depth env category i = Inr p"
  shows "get_search_parameter depth env [(category, cs @ [c])]
           = map_sum id Some (resolve_criterion depth env category c)
       \<and> get_search_parameter depth env (pre @ (category, cs @ [c]) # post)
           = get_search_parameter depth env (pre @ (category, [c]) # post)
       \<and> search depth env entities (ps @ (pre @ (category, cs @ [c]) # post) # qs)
           = search depth env entities (ps @ (pre @ (category, [c]) # post) # qs)"
proof (intro conjI)
  have "get_search_parameter depth env ([] @ (category, cs @ [c]) # [])
          = get_search_parameter depth env ([] @ (category, [c]) # [])"
    using assms by (rule get_search_parameter_last)
  then show "get_search_parameter depth env [(category, cs @ [c])]
           = map_sum id Some (resolve_criterion depth env category c)"
    by (simp add: get_search_parameter_def split: sum.splits)
  show eq: "get_search_parameter depth env (pre @ (category, cs @ [c]) # post)
           = get_search_parameter depth env (pre @ (category, [c]) # post)"
    using assms by (rule get_search_parameter_last)
  show "search depth env entities (ps @ (pre @ (category, cs @ [c]) # post) # qs)
           = search depth env entities (ps @ (pre @ (category, [c]) # post) # qs)"
    unfolding search_def
    using map_err_cong_elem [of "get_search_parameter depth env", OF eq] by simp
qed

lemma last_wins_example:
  "resolve_criterion 0 example_env ''entityID'' (criterion ''equal'' [VId 1])
     = Inr \<lparr>p_search_values = [VId 1], p_logical_operator = ''or'', p_operator = ''equal'',
            p_category = ''entityID'', p_is_date = False\<rparr>"
  "resolve_criterion 0 example_env ''entityID'' (criterion ''equal'' [VId 2])
     = Inr \<lparr>p_search_values = [VId 2], p_logical_operator = ''or'', p_operator = ''equal'',
            p_category = ''entityID'', p_is_date = False\<rparr>"
  by code_simp+

text \<open>The earlier criterion asks for the entity 1 and resolves; the criterion that is
  kept is the last one, which asks for the entity 2.\<close>

theorem last_criterion_wins_witness:
  "resolve_criterion 0 example_env ''entityID'' (criterion ''equal'' [VId 1])
     = Inr \<lparr>p_search_values = [VId 1], p_logical_operator = ''or'', p_operator = ''equal'',
            p_category = ''entityID'', p_is_date = False\<rparr> \<and>
   get_search_parameter 0 example_env
     [(''entityID'', [criterion ''equal'' [VId 1], criterion ''equal'' [VId 2]])]
     = Inr (Some \<lparr>p_search_values = [VId 2], p_logical_operator = ''or'',
                  p_operator = ''equal'', p_category = ''entityID'', p_is_date = False\<rparr>)"
  using last_criterion_wins [of "[criterion ''equal'' [VId 1]]" 0 example_env "''entityID''"
      "criterion ''equal'' [VId 2]" "[]" "[]" "[]" "[]" "[]"]
  by (simp add: last_wins_example)




section \<open>Value links\<close>

lemma search_for_value_loop_filter:
  "search_for_value_loop env vals p links ids =
     and_then (filter_err (link_condition env vals p) links)
       (\<lambda>ls. Inr (ids @ map (\<lambda>l. VId (domain_id l)) ls))"
proof (induction links arbitrary: ids)
  case Nil
  then show ?case by simp
next
  case (Cons l links)
  show ?case
  proof (cases "link_condition env vals p l")
    case (Inl e)
    then show ?thesis by simp
  next
    case (Inr b)
    then show ?thesis
      by (cases "filter_err (link_condition env vals p) links") (simp_all add: Cons.IH)
  qed
qed

lemma link_condition_no_description:
  "\<not> has_description l \<Longrightarrow> link_condition env vals p l = Inr False"
  by (simp add: link_condition_def)

lemma link_condition_not_a_float:
  assumes "has_description l" and "raw_operator p \<noteq> None"
    and "py_float env (the (link_description l)) = None"
  shows "link_condition env vals p l = Inl ValueError"
  using assms by (auto simp: link_condition_def)

lemma link_condition_evaluated:
  assumes "has_description l" and "raw_operator p = Some op"
    and "raw_logicalOperator p = Some lo"
    and "py_float env (the (link_description l)) = Some f"
  shows "link_condition env (VList (t # x # rest)) p l =
           search_entity (if op \<in> set [''equal'', ''notEqual''] then VList [VNum f] else VNum f)
             op [x] lo True"
  using assms by (simp add: link_condition_def)

lemma search_for_value_loop_first_error:
  assumes "find has_description links = Some l"
    and "link_condition env vals p l = Inl e"
  shows "search_for_value_loop env vals p links ids = Inl e"
  using assms
proof (induction links arbitrary: ids)
  case Nil
  then show ?case by simp
next
  case (Cons k links)
  show ?case
  proof (cases "has_description k")
    case True
    with Cons.prems show ?thesis by simp
  next
    case False
    with Cons show ?thesis by (simp add: link_condition_no_description)
  qed
qed

lemma find_has_description_holds: "find has_description links = Some l \<Longrightarrow> has_description l"
  by (induction links) (auto split: if_splits)

lemma value_links_cases:
  "((\<forall>l\<in>set (get_links env t). \<not> has_description l)
      \<longrightarrow> search_for_value env (VList (t # rest)) p = Inr [])
   \<and> (raw_operator p \<noteq> None \<and>
       (\<exists>l. find has_description (get_links env t) = Some l \<and>
            py_float env (the (link_description l)) = None)
      \<longrightarrow> search_for_value env (VList (t # rest)) p = Inl ValueError)
   \<and> (raw_operator p = Some op \<and> raw_logicalOperator p = Some lo \<and>
       (\<forall>l\<in>set (get_links env t). has_description l \<longrightarrow>
          (\<exists>f b. py_float env (the (link_description l)) = Some f \<and>
             search_entity
               (if op \<in> set [''equal'', ''notEqual''] then VList [VNum f] else VNum f)
               op [x] lo True = Inr b))
      \<longrightarrow> search_for_value env (VList (t # x # rest')) p
          = Inr (map (\<lambda>l. VId (domain_id l))
              (filter (\<lambda>l. has_description l \<and>
                 (\<exists>f. py_float env (the (link_description l)) = Some f \<and>
                    search_entity
                      (if op \<in> set [''equal'', ''notEqual''] then VList [VNum f] else VNum f)
                      op [x] lo True = Inr True))
               (get_links env t))))"
proof (intro conjI impI)
  assume "\<forall>l\<in>set (get_links env t). \<not> has_description l"
  then have "filter_err (link_condition env (VList (t # rest)) p) (get_links env t) = Inr []"
    by (auto simp: filter_err_Inr_iff link_condition_no_description filter_empty_conv)
  then show "search_for_value env (VList (t # rest)) p = Inr []"
    by (simp add: search_for_value_def search_for_value_loop_filter)
next
  assume a: "raw_operator p \<noteq> None \<and>
       (\<exists>l. find has_description (get_links env t) = Some l \<and>
            py_float env (the (link_description l)) = None)"
  then obtain l where l: "find has_description (get_links env t) = Some l"
    and nf: "py_float env (the (link_description l)) = None" by blast
  from l have "has_description l" by (rule find_has_description_holds)
  with a nf have "link_condition env (VList (t # rest)) p l = Inl ValueError"
    by (simp add: link_condition_not_a_float)
  with l show "search_for_value env (VList (t # rest)) p = Inl ValueError"
    by (simp add: search_for_value_def search_for_value_loop_first_error)
next
  let ?vals = "VList (t # x # rest')"
  let ?ev = "\<lambda>f. if op \<in> set [''equal'', ''notEqual''] then VList [VNum f] else VNum f"
  assume a: "raw_operator p = Some op \<and> raw_logicalOperator p = Some lo \<and>
       (\<forall>l\<in>set (get_links env t). has_description l \<longrightarrow>
          (\<exists>f b. py_float env (the (link_description l)) = Some f \<and>
             search_entity (?ev f) op [x] lo True = Inr b))"
  have cond: "link_condition env ?vals p l =
      Inr (has_description l \<and> (\<exists>f. py_float env (the (link_description l)) = Some f \<and>
             search_entity (?ev f) op [x] lo True = Inr True))"
    if "l \<in> set (get_links env t)" for l
  proof (cases "has_description l")
    case False
    then show ?thesis by (simp add: link_condition_no_description)
  next
    case True
    with a that obtain f b where f: "py_float env (the (link_description l)) = Some f"
      and b: "search_entity (?ev f) op [x] lo True = Inr b" by blast
    from True a f have "link_condition env ?vals p l = search_entity (?ev f) op [x] lo True"
      by (simp add: link_condition_evaluated)
    with True f b show ?thesis by simp
  qed
  have "filter_err (link_condition env ?vals p) (get_links env t)
      = Inr (filter (\<lambda>l. has_description l \<and>
                 (\<exists>f. py_float env (the (link_description l)) = Some f \<and>
                    search_entity (?ev f) op [x] lo True = Inr True)) (get_links env t))"
  proof -
    let ?Q = "\<lambda>l. has_description l \<and>
                 (\<exists>f. py_float env (the (link_description l)) = Some f \<and>
                    search_entity (?ev f) op [x] lo True = Inr True)"
    have total: "\<forall>l\<in>set (get_links env t). \<exists>b. link_condition env ?vals p l = Inr b"
      using cond by blast
    have "filter (\<lambda>l. link_condition env ?vals p l = Inr True) (get_links env t)
            = filter ?Q (get_links env t)"
    proof (rule filter_cong [OF refl])
      fix l assume "l \<in> set (get_links env t)"
      then have "link_condition env ?vals p l = Inr (?Q l)" by (rule cond)
      then show "(link_condition env ?vals p l = Inr True) = ?Q l" by simp
    qed
    with total show ?thesis by (simp only: filter_err_Inr_iff simp_thms)
  qed
  then show "search_for_value env ?vals p
          = Inr (map (\<lambda>l. VId (domain_id l))
              (filter (\<lambda>l. has_description l \<and>
                 (\<exists>f. py_float env (the (link_description l)) = Some f \<and>
                    search_entity (?ev f) op [x] lo True = Inr True))
               (get_links env t)))"
    by (simp add: search_for_value_def search_for_value_loop_filter)
qed


lemma filter_err_some_error:
  assumes "x \<in> set xs" and "f x = Inl e'"
  shows "\<exists>e. filter_err f xs = Inl e"
proof (cases "filter_err f xs")
  case (Inl e)
  then show ?thesis by blast
next
  case (Inr ys)
  then have "\<forall>x\<in>set xs. \<exists>b. f x = Inr b" by (simp add: filter_err_Inr_iff)
  with assms show ?thesis by auto
qed

lemma filter_err_first_error:
  assumes "\<forall>k\<in>set pre. \<exists>b. f k = Inr b" and "f l = Inl e"
  shows "filter_err f (pre @ l # post) = Inl e"
  using assms(1)
proof (induction pre)
  case Nil
  with assms(2) show ?case by simp
next
  case (Cons k pre)
  then obtain b where "f k = Inr b" by auto
  with Cons show ?case by simp
qed

lemma link_condition_unparseable:
  assumes "has_description l" and "py_float env (the (link_description l)) = None"
  shows "\<exists>e. link_condition env vals p l = Inl e"
proof (cases "raw_operator p")
  case None
  with assms show ?thesis by (simp add: link_condition_def)
next
  case (Some op)
  with assms show ?thesis by (simp add: link_condition_def)
qed

lemma any_unparseable_link_fails:
  assumes "\<exists>l\<in>set (get_links env t). has_description l \<and>
             py_float env (the (link_description l)) = None"
  shows "\<exists>e. search_for_value env (VList (t # rest)) p = Inl e"
proof -
  from assms obtain l where l: "l \<in> set (get_links env t)" "has_description l"
    "py_float env (the (link_description l)) = None" by blast
  from l(2,3) obtain e' where "link_condition env (VList (t # rest)) p l = Inl e'"
    using link_condition_unparseable [of l env "VList (t # rest)" p] by blast
  with l(1) have "\<exists>e. filter_err (link_condition env (VList (t # rest)) p) (get_links env t) = Inl e"
    by (rule filter_err_some_error)
  then show ?thesis
    by (auto simp: search_for_value_def search_for_value_loop_filter)
qed

lemma unparseable_link_value_error:
  assumes "raw_operator p \<noteq> None"
    and "get_links env t = pre @ l # post"
    and "\<forall>k\<in>set pre. \<exists>b. link_condition env (VList (t # rest)) p k = Inr b"
    and "has_description l"
    and "py_float env (the (link_description l)) = None"
  shows "search_for_value env (VList (t # rest)) p = Inl ValueError"
proof -
  from assms(4,1,5) have "link_condition env (VList (t # rest)) p l = Inl ValueError"
    by (rule link_condition_not_a_float)
  with assms(3)
  have "filter_err (link_condition env (VList (t # rest)) p) (pre @ l # post) = Inl ValueError"
    by (rule filter_err_first_error)
  then show ?thesis
    by (simp add: search_for_value_def search_for_value_loop_filter assms(2))
qed

text \<open>
  C6, amended. When a \<^verbatim>\<open>valueTypeID\<close> pair is resolved, a link whose description is
  absent or empty is skipped without error; a link that has a description is converted
  with \<^verbatim>\<open>float\<close> and evaluated against the numeric value of the pair. A description
  that does not parse as a float is never skipped: whenever any link with such a
  description is attached, the resolution fails. The failure is \<^verbatim>\<open>ValueError\<close> when
  the \<^verbatim>\<open>operator\<close> key is present and every earlier link evaluates without error, in
  particular when the link is the first one with a description. When every description
  parses and every evaluation yields a boolean, the result is the list of the domain ids
  of the links that match, in the order of the links.
\<close>

theorem value_links_resolution:
  "((\<forall>l\<in>set (get_links env t). \<not> has_description l)
      \<longrightarrow> search_for_value env (VList (t # rest)) p = Inr [])
   \<and> (raw_operator p \<noteq> None \<and>
       (\<exists>l. find has_description (get_links env t) = Some l \<and>
            py_float env (the (link_description l)) = None)
      \<longrightarrow> search_for_value env (VList (t # rest)) p = Inl ValueError)
   \<and> (raw_operator p = Some op \<and> raw_logicalOperator p = Some lo \<and>
       (\<forall>l\<in>set (get_links env t). has_description l \<longrightarrow>
          (\<exists>f b. py_float env (the (link_description l)) = Some f \<and>
             search_entity
               (if op \<in> set [''equal'', ''notEqual''] then VList [VNum f] else VNum f)
               op [x] lo True = Inr b))
      \<longrightarrow> search_for_value env (VList (t # x # rest')) p
          = Inr (map (\<lambda>l. VId (domain_id l))
              (filter (\<lambda>l. has_description l \<and>
                 (\<exists>f. py_float env (the (link_description l)) = Some f \<and>
                    search_entity
                      (if op \<in> set [''equal'', ''notEqual''] then VList [VNum f] else VNum f)
                      op [x] lo True = Inr True))
               (get_links env t))))
   \<and> ((\<exists>l\<in>set (get_links env t). has_description l \<and>
          py_float env (the (link_description l)) = None)
      \<longrightarrow> (\<exists>e. search_for_value env (VList (t # rest)) p = Inl e))
   \<and> (raw_operator p \<noteq> None \<and> get_links env t = pre @ l # post \<and>
       (\<forall>k\<in>set pre. \<exists>b. link_condition env (VList (t # rest)) p k = Inr b) \<and>
       has_description l \<and> py_float env (the (link_description l)) = None
      \<longrightarrow> search_for_value env (VList (t # rest)) p = Inl ValueError)"
proof (intro conjI)
  show "(\<exists>l\<in>set (get_links env t). has_description l \<and>
          py_float env (the (link_description l)) = None)
      \<longrightarrow> (\<exists>e. search_for_value env (VList (t # rest)) p = Inl e)"
    using any_unparseable_link_fails [of env t rest p] by blast
  show "raw_operator p \<noteq> None \<and> get_links env t = pre @ l # post \<and>
       (\<forall>k\<in>set pre. \<exists>b. link_condition env (VList (t # rest)) p k = Inr b) \<and>
       has_description l \<and> py_float env (the (link_description l)) = None
      \<longrightarrow> search_for_value env (VList (t # rest)) p = Inl ValueError"
    using unparseable_link_value_error [of p env t pre l post rest] by blast
qed (rule value_links_cases [THEN conjunct1],
     rule value_links_cases [THEN conjunct2, THEN conjunct1],
     rule value_links_cases [THEN conjunct2, THEN conjunct2])

lemma example_links:
  "get_links example_env (VId 9)
     = [\<lparr>link_description = Some ''42.5'', domain_id = 7\<rparr>,
        \<lparr>link_description = None, domain_id = 8\<rparr>]"
  "get_links example_env (VId 10) = [\<lparr>link_description = Some ''abc'', domain_id = 7\<rparr>]"
  "get_links example_env (VId 11)
     = [\<lparr>link_description = None, domain_id = 8\<rparr>,
        \<lparr>link_description = Some [], domain_id = 6\<rparr>]"
  "get_links example_env (VId 12)
     = [\<lparr>link_description = Some ''42.5'', domain_id = 7\<rparr>,
        \<lparr>link_description = Some ''abc'', domain_id = 8\<rparr>]"
  "py_float example_env ''42.5'' = Some (85 / 2)"
  "py_float example_env ''abc'' = None"
  by (simp_all add: example_env_def VId_def)

theorem value_links_resolution_witness:
  "search_for_value example_env (VList [VId 11, VId 40])
     \<lparr>raw_operator = None, raw_values = None, raw_logicalOperator = None\<rparr> = Inr [] \<and>
   search_for_value example_env (VList [VId 10, VId 40])
     \<lparr>raw_operator = Some ''equal'', raw_values = None, raw_logicalOperator = None\<rparr>
     = Inl ValueError \<and>
   search_for_value example_env (VList [VId 9, VId 40])
     \<lparr>raw_operator = Some ''greaterThanEqual'', raw_values = None,
      raw_logicalOperator = Some ''or''\<rparr> = Inr [VId 7] \<and>
   search_for_value example_env (VList [VId 12, VId 40])
     \<lparr>raw_operator = Some ''greaterThanEqual'', raw_values = None,
      raw_logicalOperator = Some ''or''\<rparr> = Inl ValueError \<and>
   (\<exists>e. search_for_value example_env (VList [VId 12, VId 40])
     \<lparr>raw_operator = Some ''like'', raw_values = None,
      raw_logicalOperator = Some ''or''\<rparr> = Inl e)"
proof (intro conjI)
  show "\<exists>e. search_for_value example_env (VList [VId 12, VId 40])
     \<lparr>raw_operator = Some ''like'', raw_values = None,
      raw_logicalOperator = Some ''or''\<rparr> = Inl e"
    using value_links_resolution [where env = example_env and t = "VId 12"
        and rest = "[VId 40]"
        and p = "\<lparr>raw_operator = Some ''like'', raw_values = None,
                  raw_logicalOperator = Some ''or''\<rparr>",
        THEN conjunct2, THEN conjunct2, THEN conjunct2, THEN conjunct1]
    by (simp add: example_links has_description_def)
  show "search_for_value example_env (VList [VId 11, VId 40])
     \<lparr>raw_operator = None, raw_values = None, raw_logicalOperator = None\<rparr> = Inr []"
    using value_links_resolution [where env = example_env and t = "VId 11"
        and rest = "[VId 40]"
        and p = "\<lparr>raw_operator = None, raw_values = None, raw_logicalOperator = None\<rparr>",
        THEN conjunct1]
    by (simp add: example_links has_description_def)
  show "search_for_value example_env (VList [VId 10, VId 40])
     \<lparr>raw_operator = Some ''equal'', raw_values = None, raw_logicalOperator = None\<rparr>
     = Inl ValueError"
    using value_links_resolution [where env = example_env and t = "VId 10"
        and rest = "[VId 40]"
        and p = "\<lparr>raw_operator = Some ''equal'', raw_values = None,
                  raw_logicalOperator = None\<rparr>",
        THEN conjunct2, THEN conjunct1]
    by (simp add: example_links has_description_def)
  have ev: "search_entity (VNum (85 / 2)) ''greaterThanEqual'' [VId 40] ''or'' True = Inr True"
    by (simp add: search_entity_def py_le_def VId_def)
  show "search_for_value example_env (VList [VId 9, VId 40])
     \<lparr>raw_operator = Some ''greaterThanEqual'', raw_values = None,
      raw_logicalOperator = Some ''or''\<rparr> = Inr [VId 7]"
    using value_links_resolution [where env = example_env and t = "VId 9"
        and p = "\<lparr>raw_operator = Some ''greaterThanEqual'', raw_values = None,
                  raw_logicalOperator = Some ''or''\<rparr>"
        and op = "''greaterThanEqual''" and lo = "''or''" and x = "VId 40" and rest' = "[]",
        THEN conjunct2, THEN conjunct2, THEN conjunct1]
    by (auto simp add: example_links has_description_def ev
        simp del: eq_divide_eq_numeral1 divide_eq_eq_numeral1)
  have first: "link_condition example_env (VList [VId 12, VId 40])
      \<lparr>raw_operator = Some ''greaterThanEqual'', raw_values = None,
       raw_logicalOperator = Some ''or''\<rparr>
      \<lparr>link_description = Some ''42.5'', domain_id = 7\<rparr> = Inr True"
    by code_simp
  show "search_for_value example_env (VList [VId 12, VId 40])
     \<lparr>raw_operator = Some ''greaterThanEqual'', raw_values = None,
      raw_logicalOperator = Some ''or''\<rparr> = Inl ValueError"
    using value_links_resolution [where env = example_env and t = "VId 12"
        and rest = "[VId 40]"
        and p = "\<lparr>raw_operator = Some ''greaterThanEqual'', raw_values = None,
                  raw_logicalOperator = Some ''or''\<rparr>"
        and pre = "[\<lparr>link_description = Some ''42.5'', domain_id = 7\<rparr>]"
        and l = "\<lparr>link_description = Some ''abc'', domain_id = 8\<rparr>" and post = "[]",
        THEN conjunct2, THEN conjunct2, THEN conjunct2, THEN conjunct2]
    by (auto simp: example_links has_description_def first)
qed

text \<open>
  C6, as the code has it. The link of type 10 has the description \<^verbatim>\<open>abc\<close>, which
  \<^verbatim>\<open>float\<close> rejects: the resolution of the pair fails with \<^verbatim>\<open>ValueError\<close>.
\<close>

theorem value_links_counterexample:
  "has_description \<lparr>link_description = Some ''abc'', domain_id = 7\<rparr> \<and>
   py_float example_env ''abc'' = None \<and>
   search_for_value example_env (VList [VId 10, VId 40])
     \<lparr>raw_operator = Some ''greaterThanEqual'', raw_values = Some [VList [VId 10, VId 40]],
      raw_logicalOperator = Some ''or''\<rparr> = Inl ValueError"
  by code_simp

lemma find_Some_ex: "\<exists>l\<in>set links. P l \<Longrightarrow> \<exists>l. find P links = Some l"
  by (cases "find P links") (auto simp: find_None_iff)

lemma link_condition_missing_logical_operator:
  assumes "has_description l" and "raw_logicalOperator p = None"
  shows "link_condition env (VList (t # x # rest)) p l =
           Inl (if raw_operator p \<noteq> None \<and> py_float env (the (link_description l)) = None
                then ValueError else KeyError)"
proof (cases "raw_operator p")
  case None
  with assms show ?thesis by (simp add: link_condition_def)
next
  case (Some op)
  show ?thesis
  proof (cases "py_float env (the (link_description l))")
    case None
    with Some assms show ?thesis by (simp add: link_condition_def)
  next
    case (Some f)
    with \<open>raw_operator p = Some op\<close> assms show ?thesis by (simp add: link_condition_def)
  qed
qed


lemma resolve_criterion_default_combinator:
  assumes "raw_logicalOperator p = None"
    and "resolve_criterion depth env c p = Inr q"
  shows "p_logical_operator q = ''or''"
proof (cases "get_search_values depth env c p")
  case (Inl err)
  with assms(2) show ?thesis by (simp add: resolve_criterion_def)
next
  case sv: (Inr sv)
  show ?thesis
  proof (cases "c = ''valueTypeID''")
    case True
    with sv assms show ?thesis by (auto simp: resolve_criterion_def)
  next
    case False
    show ?thesis
    proof (cases "raw_operator p")
      case None
      with False sv assms(2) show ?thesis by (simp add: resolve_criterion_def)
    next
      case (Some op)
      with False sv assms show ?thesis by (auto simp: resolve_criterion_def)
    qed
  qed
qed


text \<open>
  C10, amended. Resolving a \<^verbatim>\<open>valueTypeID\<close> criterion whose raw dict has no
  \<^verbatim>\<open>logicalOperator\<close> key fails whenever a link with a description is attached to the
  given link type id. The failure is the missing-key error, except that it is
  \<^verbatim>\<open>ValueError\<close> when the \<^verbatim>\<open>operator\<close> key is present and the description of the
  first such link does not parse as a float: the conversion is evaluated before the
  lookup of \<^verbatim>\<open>logicalOperator\<close>. Wherever a criterion without the key does resolve,
  its combinator is \<^verbatim>\<open>or\<close>.
\<close>

theorem missing_logical_operator:
  assumes "raw_logicalOperator p = None"
    and "raw_values p = Some [VList (t # x # rest)]"
    and "\<exists>l\<in>set (get_links env t). has_description l"
  shows "get_search_values depth env ''valueTypeID'' p =
           Inl (if raw_operator p \<noteq> None \<and>
                   (\<exists>l. find has_description (get_links env t) = Some l \<and>
                        py_float env (the (link_description l)) = None)
                then ValueError else KeyError)
       \<and> get_search_parameter depth env [(''valueTypeID'', [p])] =
           Inl (if raw_operator p \<noteq> None \<and>
                   (\<exists>l. find has_description (get_links env t) = Some l \<and>
                        py_float env (the (link_description l)) = None)
                then ValueError else KeyError)
       \<and> (\<forall>c q. resolve_criterion depth env c p = Inr q \<longrightarrow> p_logical_operator q = ''or'')"
proof -
  let ?vals = "VList (t # x # rest)"
  from assms(3) have "\<exists>l. find has_description (get_links env t) = Some l"
    by (rule find_Some_ex)
  then obtain l where l: "find has_description (get_links env t) = Some l" ..
  then have hl: "has_description l" by (rule find_has_description_holds)
  define e where "e = (if raw_operator p \<noteq> None \<and> py_float env (the (link_description l)) = None
            then ValueError else KeyError)"
  from hl assms(1) have "link_condition env ?vals p l = Inl e"
    unfolding e_def by (rule link_condition_missing_logical_operator)
  with l have "search_for_value_loop env ?vals p (get_links env t) [] = Inl e"
    by (rule search_for_value_loop_first_error)
  then have sfv: "search_for_value env ?vals p = Inl e"
    by (simp add: search_for_value_def)
  have gsv: "get_search_values depth env ''valueTypeID'' p = Inl e"
    using assms(2) sfv by (simp add: get_search_values_def lower_value_def)
  have gsp: "get_search_parameter depth env [(''valueTypeID'', [p])] = Inl e"
    using gsv by (simp add: get_search_parameter_def resolve_criterion_def)
  have "(\<exists>k. find has_description (get_links env t) = Some k \<and>
              py_float env (the (link_description k)) = None)
          \<longleftrightarrow> py_float env (the (link_description l)) = None"
    using l by simp
  then have E: "e = (if raw_operator p \<noteq> None \<and>
                   (\<exists>l. find has_description (get_links env t) = Some l \<and>
                        py_float env (the (link_description l)) = None)
                then ValueError else KeyError)"
    unfolding e_def by (simp only:)
  have C: "\<forall>c q. resolve_criterion depth env c p = Inr q \<longrightarrow> p_logical_operator q = ''or''"
    using resolve_criterion_default_combinator [OF assms(1)] by blast
  from gsv [unfolded E] gsp [unfolded E] C show ?thesis by (intro conjI)
qed


text \<open>The link of type 9 carries \<^verbatim>\<open>42.5\<close>, which parses: the failure is the
  missing key.\<close>

theorem missing_logical_operator_witness:
  "get_search_values 0 example_env ''valueTypeID''
     \<lparr>raw_operator = Some ''greaterThanEqual'', raw_values = Some [VList [VId 9, VId 40]],
      raw_logicalOperator = None\<rparr> = Inl KeyError \<and>
   get_search_parameter 0 example_env [(''valueTypeID'',
     [\<lparr>raw_operator = Some ''greaterThanEqual'', raw_values = Some [VList [VId 9, VId 40]],
       raw_logicalOperator = None\<rparr>])] = Inl KeyError"
  using missing_logical_operator [of
      "\<lparr>raw_operator = Some ''greaterThanEqual'', raw_values = Some [VList [VId 9, VId 40]],
        raw_logicalOperator = None\<rparr>" "VId 9" "VId 40" "[]" example_env 0]
  by (simp add: example_links has_description_def)

text \<open>
  C10, as the code has it. The only link of type 10 has the description \<^verbatim>\<open>abc\<close>; the
  raw dict has no \<^verbatim>\<open>logicalOperator\<close>, and the resolution fails with
  \<^verbatim>\<open>ValueError\<close>, not with the missing-key error.
\<close>

theorem missing_logical_operator_counterexample:
  "get_links example_env (VId 10) = [\<lparr>link_description = Some ''abc'', domain_id = 7\<rparr>] \<and>
   has_description \<lparr>link_description = Some ''abc'', domain_id = 7\<rparr> \<and>
   get_search_values 0 example_env ''valueTypeID''
     \<lparr>raw_operator = Some ''greaterThanEqual'', raw_values = Some [VList [VId 10, VId 40]],
      raw_logicalOperator = None\<rparr> = Inl ValueError \<and>
   get_search_parameter 0 example_env [(''valueTypeID'',
     [\<lparr>raw_operator = Some ''greaterThanEqual'', raw_values = Some [VList [VId 10, VId 40]],
       raw_logicalOperator = None\<rparr>])] = Inl ValueError"
  by code_simp

section \<open>Expansion of a type by its sub-types\<close>

lemma descendants_unfold:
  assumes "get_all_sub_ids env v = Some cs"
  shows "descendants env v = set cs \<union> (\<Union>c\<in>set cs. descendants env c)"
proof (intro set_eqI iffI)
  fix y assume "y \<in> descendants env v"
  then have "(v, y) \<in> (sub_rel env)\<^sup>+" by (simp add: descendants_def)
  then show "y \<in> set cs \<union> (\<Union>c\<in>set cs. descendants env c)"
  proof (rule converse_tranclE)
    assume "(v, y) \<in> sub_rel env"
    with assms show ?thesis by (auto simp: sub_rel_def)
  next
    fix c assume vc: "(v, c) \<in> sub_rel env" and cy: "(c, y) \<in> (sub_rel env)\<^sup>+"
    from vc assms have "c \<in> set cs" by (auto simp: sub_rel_def)
    with cy show ?thesis by (auto simp: descendants_def)
  qed
next
  fix y assume "y \<in> set cs \<union> (\<Union>c\<in>set cs. descendants env c)"
  then show "y \<in> descendants env v"
  proof
    assume "y \<in> set cs"
    with assms have "(v, y) \<in> sub_rel env" by (auto simp: sub_rel_def)
    then show ?thesis by (auto simp: descendants_def)
  next
    assume "y \<in> (\<Union>c\<in>set cs. descendants env c)"
    then obtain c where c: "c \<in> set cs" and cy: "(c, y) \<in> (sub_rel env)\<^sup>+"
      by (auto simp: descendants_def)
    from c assms have "(v, c) \<in> sub_rel env" by (auto simp: sub_rel_def)
    then have "(v, y) \<in> (sub_rel env)\<^sup>+" using cy by (rule trancl_into_trancl2)
    then show ?thesis by (simp add: descendants_def)
  qed
qed

lemma get_sub_ids_loop_correct:
  assumes "\<And>v subs. v \<in> set ss \<Longrightarrow>
             \<exists>xs. get_sub_ids depth env v subs = Inr (subs @ xs) \<and> set xs = descendants env v"
  shows "\<exists>xs. get_sub_ids_loop depth env ss subs = Inr (subs @ xs) \<and>
              set xs = (\<Union>v\<in>set ss. descendants env v)"
  using assms
proof (induction ss arbitrary: subs)
  case Nil
  then show ?case by simp
next
  case (Cons s ss)
  from Cons.prems [of s subs] obtain xs where
    xs: "get_sub_ids depth env s subs = Inr (subs @ xs)" "set xs = descendants env s" by auto
  have "\<exists>ys. get_sub_ids_loop depth env ss (subs @ xs) = Inr ((subs @ xs) @ ys) \<and>
              set ys = (\<Union>v\<in>set ss. descendants env v)"
    by (rule Cons.IH) (simp add: Cons.prems)
  then obtain ys where
    ys: "get_sub_ids_loop depth env ss (subs @ xs) = Inr ((subs @ xs) @ ys)"
        "set ys = (\<Union>v\<in>set ss. descendants env v)" by blast
  have "get_sub_ids_loop depth env (s # ss) subs = Inr (subs @ (xs @ ys))"
    using xs(1) ys(1) by simp
  moreover have "set (xs @ ys) = (\<Union>v\<in>set (s # ss). descendants env v)"
    using xs(2) ys(2) by auto
  ultimately show ?case by blast
qed

lemma get_sub_ids_correct:
  assumes "hierarchy env T h"
  shows "v \<in> T \<Longrightarrow> h v < depth \<Longrightarrow>
           \<exists>xs. get_sub_ids depth env v subs = Inr (subs @ xs) \<and> set xs = descendants env v"
proof (induction depth arbitrary: v subs)
  case 0
  then show ?case by simp
next
  case (Suc n)
  from assms Suc.prems(1) obtain cs where
    cs: "get_all_sub_ids env v = Some cs" "set cs \<subseteq> T" "\<forall>c\<in>set cs. h c < h v"
    unfolding hierarchy_def by blast
  have "\<exists>xs. get_sub_ids_loop n env cs (subs @ cs) = Inr ((subs @ cs) @ xs) \<and>
              set xs = (\<Union>c\<in>set cs. descendants env c)"
  proof (rule get_sub_ids_loop_correct)
    fix c subs' assume c: "c \<in> set cs"
    with cs have "c \<in> T" "h c < n" using Suc.prems(2) by force+
    then show "\<exists>xs. get_sub_ids n env c subs' = Inr (subs' @ xs) \<and> set xs = descendants env c"
      by (rule Suc.IH)
  qed
  then obtain xs where
    xs: "get_sub_ids_loop n env cs (subs @ cs) = Inr ((subs @ cs) @ xs)"
        "set xs = (\<Union>c\<in>set cs. descendants env c)" by blast
  have "get_sub_ids (Suc n) env v subs = Inr (subs @ (cs @ xs))"
    using cs(1) xs(1) by simp
  moreover have "set (cs @ xs) = descendants env v"
    using xs(2) descendants_unfold [OF cs(1)] by simp
  ultimately show ?case by blast
qed

lemma map_get_sub_ids_correct:
  assumes "hierarchy env T h"
    and "\<forall>v\<in>set vs. v \<in> T \<and> h v < depth"
  shows "\<exists>subs. map_err (\<lambda>v. get_sub_ids depth env v []) vs = Inr subs \<and>
               set (concat subs) = (\<Union>v\<in>set vs. descendants env v)"
  using assms(2)
proof (induction vs)
  case Nil
  then show ?case by simp
next
  case (Cons v vs)
  from Cons.prems have "v \<in> T" "h v < depth" by simp_all
  with assms(1) have "\<exists>xs. get_sub_ids depth env v [] = Inr ([] @ xs) \<and> set xs = descendants env v"
    by (rule get_sub_ids_correct)
  then obtain xs where xs: "get_sub_ids depth env v [] = Inr xs" "set xs = descendants env v"
    by auto
  from Cons obtain subs where
    subs: "map_err (\<lambda>v. get_sub_ids depth env v []) vs = Inr subs"
          "set (concat subs) = (\<Union>v\<in>set vs. descendants env v)" by auto
  have "map_err (\<lambda>v. get_sub_ids depth env v []) (v # vs) = Inr (xs # subs)"
    using xs(1) subs(1) by simp
  moreover have "set (concat (xs # subs)) = (\<Union>v\<in>set (v # vs). descendants env v)"
    using xs(2) subs(2) by simp
  ultimately show ?case by blast
qed

text \<open>
  C7, amended. On a type hierarchy without cycles, with a recursion bound above the
  height of every given type, a \<^verbatim>\<open>typeIDWithSubs\<close> criterion resolves to the given ids,
  kept as they were supplied, followed by a list without duplicates that holds exactly
  the transitive descendants of the given ids. As a set, the result is the given ids
  together with all their descendants; the given ids themselves are not de-duplicated,
  neither against each other nor against the descendants.
\<close>

theorem type_id_with_subs:
  assumes "hierarchy env T height"
    and "\<forall>i\<in>set ids. VId i \<in> T \<and> height (VId i) < depth"
  shows "\<exists>subs. get_search_values depth env ''typeIDWithSubs''
                  \<lparr>raw_operator = op, raw_values = Some (map VId ids), raw_logicalOperator = lo\<rparr>
                = Inr (map VId ids @ subs)
              \<and> distinct subs
              \<and> set subs = (\<Union>i\<in>set ids. descendants env (VId i))"
proof -
  have low: "map (lower_value env) (map VId ids) = map VId ids"
    by (induction ids) (simp_all add: lower_value_def VId_def)
  from assms(2) have "\<forall>v\<in>set (map VId ids). v \<in> T \<and> height v < depth" by simp
  with assms(1) have "\<exists>subs. map_err (\<lambda>v. get_sub_ids depth env v []) (map VId ids) = Inr subs \<and>
               set (concat subs) = (\<Union>v\<in>set (map VId ids). descendants env v)"
    by (rule map_get_sub_ids_correct)
  then obtain subs where
    subs: "map_err (\<lambda>v. get_sub_ids depth env v []) (map VId ids) = Inr subs"
          "set (concat subs) = (\<Union>v\<in>set (map VId ids). descendants env v)" by blast
  have "get_search_values depth env ''typeIDWithSubs''
          \<lparr>raw_operator = op, raw_values = Some (map VId ids), raw_logicalOperator = lo\<rparr>
        = Inr (map VId ids @ flatten_list_and_remove_duplicates subs)"
    using subs(1) by (simp add: get_search_values_def low del: map_map)
  moreover have "distinct (flatten_list_and_remove_duplicates subs)"
    by (simp add: flatten_list_and_remove_duplicates_def)
  moreover have "set (flatten_list_and_remove_duplicates subs)
                   = (\<Union>i\<in>set ids. descendants env (VId i))"
    using subs(2) by (simp add: flatten_list_and_remove_duplicates_def)
  ultimately show ?thesis by blast
qed


lemma type_tree_example:
  "get_search_values 3 example_env ''typeIDWithSubs''
     \<lparr>raw_operator = Some ''equal'', raw_values = Some [VId 1],
      raw_logicalOperator = None\<rparr> = Inr [VId 1, VId 2, VId 3, VId 4]"
  by code_simp

text \<open>The tree of the claim: root 1 with the children 2 and 3, and 4 below 2. The value
  \<^verbatim>\<open>[1]\<close> resolves to the four ids, each once.\<close>

theorem type_id_with_subs_witness:
  "get_search_values 3 example_env ''typeIDWithSubs''
     \<lparr>raw_operator = Some ''equal'', raw_values = Some [VId 1],
      raw_logicalOperator = None\<rparr> = Inr [VId 1, VId 2, VId 3, VId 4] \<and>
   descendants example_env (VId 1) = set [VId 2, VId 3, VId 4]"
proof -
  have h: "hierarchy example_env (set [VId 1, VId 2, VId 3, VId 4]) example_height"
    by (simp add: hierarchy_def example_env_def example_height_def VId_def)
  have b: "\<forall>i\<in>set [1]. VId i \<in> set [VId 1, VId 2, VId 3, VId 4] \<and> example_height (VId i) < 3"
    by (simp add: example_height_def)
  from type_id_with_subs [OF h b, of "Some ''equal''" None]
  obtain subs where
    subs: "get_search_values 3 example_env ''typeIDWithSubs''
             \<lparr>raw_operator = Some ''equal'', raw_values = Some [VId 1],
              raw_logicalOperator = None\<rparr> = Inr (VId 1 # subs)"
      "set subs = descendants example_env (VId 1)"
    by auto
  from subs(1) have "subs = [VId 2, VId 3, VId 4]"
    by (simp add: type_tree_example)
  with subs(2) have "descendants example_env (VId 1) = set [VId 2, VId 3, VId 4]"
    by simp
  then show ?thesis using type_tree_example by simp
qed

text \<open>
  C7, as the code has it. In the same tree the values \<^verbatim>\<open>[1, 2]\<close>, a type and one of
  its sub-types, resolve to a list in which the id 2 occurs twice.
\<close>

theorem type_id_with_subs_counterexample:
  "get_search_values 3 example_env ''typeIDWithSubs'' (criterion ''equal'' [VId 1, VId 2])
     = Inr [VId 1, VId 2, VId 2, VId 3, VId 4] \<and>
   \<not> distinct [VId 1, VId 2, VId 2, VId 3, VId 4]"
  by code_simp

end
